theory Spec2Isabelle
  imports Main "HOL-Library.Char_ord" "HOL-Library.List_Lexorder"
begin

section \<open>Python values\<close>

text \<open>
  The program is dynamically typed: a digital ID is a \<open>dict\<close>, a block holds a list of
  whatever was registered. The values that occur are modelled by one datatype.

  \<^item> A \<open>str\<close> is a list of code points below 256; \<open>bytes\<close> is a list of 8-bit values.
    Both are \<open>char list\<close> in HOL and are kept apart by their constructors.
  \<^item> A \<open>float\<close> is represented by the text \<open>float.__repr__\<close> prints for it (\<open>NaN\<close>,
    \<open>Infinity\<close>, \<open>-Infinity\<close> for the non-finite ones). The program never computes with
    floats: it reads the clock and serialises the reading.
  \<^item> A \<open>dict\<close> is its list of items in insertion order. Its keys are strings or integers;
    keys of other types are outside the model.
  \<^item> \<open>PBytes\<close> stands for the values \<open>json.dumps\<close> rejects (the program handles raw
    \<open>bytes\<close> keys and signatures before it hex-encodes them).
\<close>

type_synonym bytes = "char list"

datatype exn = TypeError | KeyError | ValueError | IndexError | ProviderError

datatype pykey = KStr string | KInt int

datatype pyval =
    PNone
  | PBool bool
  | PInt int
  | PFloat string
  | PStr string
  | PBytes bytes
  | PList "pyval list"
  | PDict "(pykey \<times> pyval) list"

subsection \<open>Subscription \<open>d[k]\<close> with a string key\<close>

fun getitem :: "pyval \<Rightarrow> string \<Rightarrow> exn + pyval" where
  "getitem (PDict kvs) k = (case map_of kvs (KStr k) of None \<Rightarrow> Inl KeyError | Some v \<Rightarrow> Inr v)"
| "getitem _ k = Inl TypeError"

subsection \<open>\<open>bytes.hex\<close> and \<open>bytes.fromhex\<close>\<close>

definition hex_char :: "nat \<Rightarrow> char" where
  "hex_char n = (if n < 10 then char_of (48 + n) else char_of (87 + n))"

definition bytes_hex :: "bytes \<Rightarrow> string" where
  "bytes_hex bs = concat (map (\<lambda>c. [hex_char (of_char c div 16), hex_char (of_char c mod 16)]) bs)"

definition hex_val :: "char \<Rightarrow> nat option" where
  "hex_val c =
     (let n = (of_char c :: nat) in
      if 48 \<le> n \<and> n \<le> 57 then Some (n - 48)
      else if 97 \<le> n \<and> n \<le> 102 then Some (n - 87)
      else if 65 \<le> n \<and> n \<le> 70 then Some (n - 55)
      else None)"

definition is_space :: "char \<Rightarrow> bool" where
  "is_space c = ((of_char c :: nat) \<in> {9, 10, 11, 12, 13, 32})"

text \<open>\<open>bytes.fromhex\<close>: white space is skipped between bytes, never inside one.\<close>

fun fromhex :: "string \<Rightarrow> exn + bytes" where
  "fromhex [] = Inr []"
| "fromhex [c] = (if is_space c then Inr [] else Inl ValueError)"
| "fromhex (c # d # cs) =
     (if is_space c then fromhex (d # cs)
      else case hex_val c of
        None \<Rightarrow> Inl ValueError
      | Some hi \<Rightarrow>
          (case hex_val d of
             None \<Rightarrow> Inl ValueError
           | Some lo \<Rightarrow>
               (case fromhex cs of
                  Inl e \<Rightarrow> Inl e
                | Inr bs \<Rightarrow> Inr (char_of (16 * hi + lo) # bs))))"

text \<open>\<open>bytes.fromhex(x)\<close> for any object \<open>x\<close>: only a \<open>str\<close> is accepted.\<close>

fun bytes_fromhex :: "pyval \<Rightarrow> exn + bytes" where
  "bytes_fromhex (PStr s) = fromhex s"
| "bytes_fromhex _ = Inl TypeError"

subsection \<open>\<open>json.dumps(obj, sort_keys=True)\<close>\<close>

text \<open>
  The defaults apply: \<open>ensure_ascii=True\<close>, \<open>allow_nan=True\<close>, separators \<open>", "\<close> and
  \<open>": "\<close>. Circular structures and the recursion limit are outside the model.
\<close>

fun show_nat :: "nat \<Rightarrow> string" where
  "show_nat n = (if n < 10 then [char_of (48 + n)] else show_nat (n div 10) @ [char_of (48 + n mod 10)])"

declare show_nat.simps [simp del]

definition show_int :: "int \<Rightarrow> string" where
  "show_int i = (if i < 0 then CHR ''-'' # show_nat (nat (- i)) else show_nat (nat i))"

text \<open>
  \<open>int.__repr__\<close>. CPython (3.11 and later, and the security releases of 3.7 to 3.10)
  refuses to print an integer of more than 4300 digits.
\<close>

definition int_repr :: "int \<Rightarrow> exn + string" where
  "int_repr i = (if 4300 < length (show_nat (nat (abs i))) then Inl ValueError else Inr (show_int i))"

text \<open>One character of a string literal, as \<open>py_encode_basestring_ascii\<close> writes it.\<close>

definition esc_char :: "char \<Rightarrow> string" where
  "esc_char c =
     (if c = CHR 0x22 then [CHR 0x5C, CHR 0x22]
      else if c = CHR 0x5C then [CHR 0x5C, CHR 0x5C]
      else if c = CHR 0x0A then [CHR 0x5C, CHR ''n'']
      else if c = CHR 0x0D then [CHR 0x5C, CHR ''r'']
      else if c = CHR 0x09 then [CHR 0x5C, CHR ''t'']
      else if c = CHR 0x08 then [CHR 0x5C, CHR ''b'']
      else if c = CHR 0x0C then [CHR 0x5C, CHR ''f'']
      else if (32::nat) \<le> of_char c \<and> of_char c \<le> (126::nat) then [c]
      else [CHR 0x5C, CHR ''u'', CHR ''0'', CHR ''0'',
            hex_char (of_char c div 16), hex_char (of_char c mod 16)])"

definition encode_basestring_ascii :: "string \<Rightarrow> string" where
  "encode_basestring_ascii s = CHR 0x22 # concat (map esc_char s) @ [CHR 0x22]"

fun join :: "string \<Rightarrow> string list \<Rightarrow> string" where
  "join sep [] = []"
| "join sep [s] = s"
| "join sep (s # t # ss) = s @ sep @ join sep (t # ss)"

fun is_KStr :: "pykey \<Rightarrow> bool" where
  "is_KStr (KStr s) = True"
| "is_KStr (KInt i) = False"

fun str_of :: "pykey \<Rightarrow> string" where
  "str_of (KStr s) = s"
| "str_of (KInt i) = []"

fun int_of :: "pykey \<Rightarrow> int" where
  "int_of (KInt i) = i"
| "int_of (KStr s) = 0"

text \<open>
  \<open>sorted(dct.items())\<close>: strings are ordered by code point, integers by value, and
  comparing a string with an integer raises \<open>TypeError\<close>. The keys of a dict are
  distinct, so the values are never compared.
\<close>

definition sorted_items :: "(pykey \<times> 'a) list \<Rightarrow> exn + (pykey \<times> 'a) list" where
  "sorted_items kvs =
     (if list_all (\<lambda>(k, v). is_KStr k) kvs then Inr (sort_key (\<lambda>(k, v). str_of k) kvs)
      else if list_all (\<lambda>(k, v). \<not> is_KStr k) kvs then Inr (sort_key (\<lambda>(k, v). int_of k) kvs)
      else Inl TypeError)"

text \<open>
  A key as the encoder writes it: an integer key becomes the string of its digits.
\<close>

fun key_text :: "pykey \<Rightarrow> exn + string" where
  "key_text (KStr s) = Inr (encode_basestring_ascii s)"
| "key_text (KInt i) =
     (case int_repr i of Inl e \<Rightarrow> Inl e | Inr t \<Rightarrow> Inr (CHR 0x22 # t @ [CHR 0x22]))"

text \<open>
  The encoder sorts the items of a dict first, then writes them in that order, the key of
  an item before its value; the first failure is the exception of the call.
\<close>

function json_dumps :: "pyval \<Rightarrow> exn + string"
  and dumps_list :: "pyval list \<Rightarrow> exn + string list"
  and dumps_items :: "(pykey \<times> pyval) list \<Rightarrow> exn + string list" where
  "json_dumps PNone = Inr ''null''"
| "json_dumps (PBool b) = Inr (if b then ''true'' else ''false'')"
| "json_dumps (PInt i) = int_repr i"
| "json_dumps (PFloat t) = Inr t"
| "json_dumps (PStr s) = Inr (encode_basestring_ascii s)"
| "json_dumps (PBytes b) = Inl TypeError"
| "json_dumps (PList xs) =
     (case dumps_list xs of
        Inl e \<Rightarrow> Inl e
      | Inr ss \<Rightarrow> Inr (''['' @ join '', '' ss @ '']''))"
| "json_dumps (PDict kvs) =
     (case sorted_items kvs of
        Inl e \<Rightarrow> Inl e
      | Inr its \<Rightarrow>
          (case dumps_items its of
             Inl e \<Rightarrow> Inl e
           | Inr ts \<Rightarrow> Inr (''{'' @ join '', '' ts @ ''}'')))"
| "dumps_list [] = Inr []"
| "dumps_list (x # xs) =
     (case json_dumps x of
        Inl e \<Rightarrow> Inl e
      | Inr s \<Rightarrow> (case dumps_list xs of Inl e \<Rightarrow> Inl e | Inr ss \<Rightarrow> Inr (s # ss)))"
| "dumps_items [] = Inr []"
| "dumps_items (kv # kvs) =
     (case key_text (fst kv) of
        Inl e \<Rightarrow> Inl e
      | Inr k \<Rightarrow>
          (case json_dumps (snd kv) of
             Inl e \<Rightarrow> Inl e
           | Inr s \<Rightarrow>
               (case dumps_items kvs of
                  Inl e \<Rightarrow> Inl e
                | Inr ts \<Rightarrow> Inr ((k @ '': '' @ s) # ts))))"
  by pat_completeness auto
termination
proof -
  let ?g = "size_prod (\<lambda>k. 0) size :: pykey \<times> pyval \<Rightarrow> nat"
  have ins: "sum_list (map ?g (insort_key f x xs)) = ?g x + sum_list (map ?g xs)"
    for f :: "pykey \<times> pyval \<Rightarrow> 'k::linorder" and x xs
    by (induction xs) simp_all
  have srt: "sum_list (map ?g (sort_key f xs)) = sum_list (map ?g xs)"
    for f :: "pykey \<times> pyval \<Rightarrow> 'k::linorder" and xs
    by (induction xs) (simp_all add: ins)
  have sz: "size_list ?g its = size_list ?g kvs" if "sorted_items kvs = Inr its" for kvs its
    using that
    by (auto simp: sorted_items_def size_list_conv_sum_list srt split: if_splits)
  show ?thesis
    by (relation "measure (\<lambda>x. case x of
          Inl v \<Rightarrow> size v
        | Inr (Inl vs) \<Rightarrow> size_list size vs
        | Inr (Inr kvs) \<Rightarrow> size_list (size_prod (\<lambda>k. 0) size) kvs)")
       (auto simp: sz less_Suc_eq_le)
qed

text \<open>\<open>str.encode('utf-8')\<close> on code points below 256.\<close>

definition encode_utf8 :: "string \<Rightarrow> bytes" where
  "encode_utf8 s =
     concat (map (\<lambda>c. if (of_char c :: nat) < 128 then [c]
                       else [char_of (192 + (of_char c :: nat) div 64),
                             char_of (128 + (of_char c :: nat) mod 64)]) s)"

section \<open>External libraries\<close>

text \<open>
  \<open>hashlib.sha256\<close> and the \<open>pqcrypto\<close> signature scheme are libraries the program calls.
  They are parameters of the model: \<open>sha256\<close> maps a byte string to its digest, and a
  provider holds the three operations of the signature scheme. Key generation and signing
  draw randomness, which is an argument here. The clock reading of \<open>time()\<close> is an
  argument of every function that reads the clock.
\<close>

type_synonym sha = "bytes \<Rightarrow> bytes"

record 'r provider =
  generate_keypair :: "'r \<Rightarrow> bytes \<times> bytes"
  sign :: "'r \<Rightarrow> bytes \<Rightarrow> bytes \<Rightarrow> exn + bytes"
  verify :: "bytes \<Rightarrow> bytes \<Rightarrow> bytes \<Rightarrow> exn + bool"

section \<open>blockchain.py\<close>

record block =
  index :: int
  timestamp :: string
  digital_ids :: "pyval list"
  previous_hash :: string
  nonce :: int
  hash :: string

text \<open>The string \<open>calculate_hash\<close> feeds to SHA-256.\<close>

definition block_string :: "block \<Rightarrow> exn + string" where
  "block_string b =
     json_dumps (PDict
       [(KStr ''index'', PInt (index b)),
        (KStr ''timestamp'', PFloat (timestamp b)),
        (KStr ''data'', PList (digital_ids b)),
        (KStr ''previous_hash'', PStr (previous_hash b)),
        (KStr ''nonce'', PInt (nonce b))])"

definition calculate_hash :: "sha \<Rightarrow> block \<Rightarrow> exn + string" where
  "calculate_hash sha256 b =
     (case block_string b of
        Inl e \<Rightarrow> Inl e
      | Inr s \<Rightarrow> Inr (bytes_hex (sha256 (encode_utf8 s))))"

text \<open>\<open>Block.__init__\<close>; \<open>now\<close> is the reading of \<open>time()\<close>.\<close>

definition Block_init :: "sha \<Rightarrow> string \<Rightarrow> int \<Rightarrow> pyval list \<Rightarrow> string \<Rightarrow> exn + block" where
  "Block_init sha256 now i ids prev =
     (let b = \<lparr>index = i, timestamp = now, digital_ids = ids, previous_hash = prev,
               nonce = 0, hash = []\<rparr>
      in case calculate_hash sha256 b of
           Inl e \<Rightarrow> Inl e
         | Inr h \<Rightarrow> Inr (b\<lparr>hash := h\<rparr>))"

definition startswith :: "string \<Rightarrow> string \<Rightarrow> bool" where
  "startswith s p = (take (length p) s = p)"

text \<open>
  The loop of \<open>mine_block\<close>. It mutates the block, so the model returns the block as the
  call leaves it, with the exception if one was raised. The loop has no bound: \<open>None\<close> is
  the run that never ends.
\<close>

partial_function (option) mine_loop :: "sha \<Rightarrow> string \<Rightarrow> block \<Rightarrow> (exn option \<times> block) option" where
  "mine_loop sha256 target_prefix b =
     (if startswith (hash b) target_prefix then Some (None, b)
      else case calculate_hash sha256 (b\<lparr>nonce := nonce b + 1\<rparr>) of
             Inl e \<Rightarrow> Some (Some e, b\<lparr>nonce := nonce b + 1\<rparr>)
           | Inr h \<Rightarrow> mine_loop sha256 target_prefix (b\<lparr>nonce := nonce b + 1, hash := h\<rparr>))"

text \<open>\<open>'0' * difficulty\<close> is the empty string for a negative \<open>difficulty\<close>.\<close>

definition mine_block :: "sha \<Rightarrow> block \<Rightarrow> int \<Rightarrow> (exn option \<times> block) option" where
  "mine_block sha256 b difficulty = mine_loop sha256 (replicate (nat difficulty) CHR ''0'') b"

record blockchain =
  chain :: "block list"
  pending_ids :: "pyval list"

definition create_genesis_block :: "sha \<Rightarrow> string \<Rightarrow> blockchain \<Rightarrow> exn + blockchain" where
  "create_genesis_block sha256 now bc =
     (case Block_init sha256 now 0 [PStr ''Genesis Block: System Initialized''] ''0'' of
        Inl e \<Rightarrow> Inl e
      | Inr genesis_block \<Rightarrow> Inr (bc\<lparr>chain := chain bc @ [genesis_block]\<rparr>))"

definition Blockchain_init :: "sha \<Rightarrow> string \<Rightarrow> exn + blockchain" where
  "Blockchain_init sha256 now = create_genesis_block sha256 now \<lparr>chain = [], pending_ids = []\<rparr>"

definition last_block :: "blockchain \<Rightarrow> exn + block" where
  "last_block bc = (if chain bc = [] then Inl IndexError else Inr (last (chain bc)))"

definition register_id :: "blockchain \<Rightarrow> pyval \<Rightarrow> blockchain" where
  "register_id bc digital_id = bc\<lparr>pending_ids := pending_ids bc @ [digital_id]\<rparr>"

definition mine_pending_ids :: "sha \<Rightarrow> string \<Rightarrow> int \<Rightarrow> blockchain \<Rightarrow> (exn + blockchain) option" where
  "mine_pending_ids sha256 now difficulty bc =
     (if pending_ids bc = [] then Some (Inr bc)
      else case last_block bc of
        Inl e \<Rightarrow> Some (Inl e)
      | Inr lb \<Rightarrow>
          (case Block_init sha256 now (index lb + 1) (pending_ids bc) (hash lb) of
             Inl e \<Rightarrow> Some (Inl e)
           | Inr new_block \<Rightarrow>
               (case mine_block sha256 new_block difficulty of
                  None \<Rightarrow> None
                | Some (Some e, mined) \<Rightarrow> Some (Inl e)
                | Some (None, mined) \<Rightarrow>
                    Some (Inr (bc\<lparr>chain := chain bc @ [mined], pending_ids := []\<rparr>)))))"

text \<open>
  \<open>is_chain_valid\<close> returns its verdict and prints which block failed which check; the
  model returns the printed lines with the verdict. \<open>check_from c i\<close> is the loop from
  index \<open>i\<close> on.
\<close>

function check_from :: "sha \<Rightarrow> block list \<Rightarrow> nat \<Rightarrow> exn + string list \<times> bool" where
  "check_from sha256 c i =
     (if i < length c then
        (case calculate_hash sha256 (c ! i) of
           Inl e \<Rightarrow> Inl e
         | Inr h \<Rightarrow>
             if hash (c ! i) \<noteq> h
             then Inr ([''Chain INVALID: Block '' @ show_nat i @ '' hash is corrupted!''], False)
             else if previous_hash (c ! i) \<noteq> hash (c ! (i - 1))
             then Inr ([''Chain INVALID: Block '' @ show_nat i @ '' is not correctly linked!''], False)
             else check_from sha256 c (i + 1))
      else Inr ([], True))"
  by pat_completeness auto
termination
  by (relation "measure (\<lambda>(s, c, i). length c - i)") auto

declare check_from.simps [simp del]

definition is_chain_valid :: "sha \<Rightarrow> blockchain \<Rightarrow> exn + string list \<times> bool" where
  "is_chain_valid sha256 bc = check_from sha256 (chain bc) 1"

subsection \<open>The tamper demonstration\<close>

text \<open>
  \<open>d[k] = v\<close> on a dict: an existing key keeps its place, a new key goes last.
\<close>

fun dict_set :: "(pykey \<times> pyval) list \<Rightarrow> pykey \<Rightarrow> pyval \<Rightarrow> (pykey \<times> pyval) list" where
  "dict_set [] k v = [(k, v)]"
| "dict_set (kv # kvs) k v = (if fst kv = k then (k, v) # kvs else kv # dict_set kvs k v)"

text \<open>\<open>digital_id['user_data'][k] = v\<close>.\<close>

fun set_user_data :: "pyval \<Rightarrow> string \<Rightarrow> pyval \<Rightarrow> exn + pyval" where
  "set_user_data (PDict kvs) k v =
     (case map_of kvs (KStr ''user_data'') of
        None \<Rightarrow> Inl KeyError
      | Some (PDict ud) \<Rightarrow>
          Inr (PDict (dict_set kvs (KStr ''user_data'') (PDict (dict_set ud (KStr k) v))))
      | Some _ \<Rightarrow> Inl TypeError)"
| "set_user_data _ k v = Inl TypeError"

text \<open>
  The statement \<open>chain[1].digital_ids[0]['user_data'][k] = v\<close> of the tamper demonstrations
  (the \<open>/tamper_chain\<close> route and the script at the end of \<open>blockchain.py\<close>). A record
  object that is stored in several places of the ledger changes in all of them; the model
  has values, not objects, and changes the one place.
\<close>

definition tamper :: "blockchain \<Rightarrow> string \<Rightarrow> pyval \<Rightarrow> exn + blockchain" where
  "tamper bc k v =
     (if length (chain bc) < 2 then Inl IndexError
      else case digital_ids (chain bc ! 1) of
        [] \<Rightarrow> Inl IndexError
      | d # ds \<Rightarrow>
          (case set_user_data d k v of
             Inl e \<Rightarrow> Inl e
           | Inr d' \<Rightarrow>
               Inr (bc\<lparr>chain := (chain bc)[1 := (chain bc ! 1)\<lparr>digital_ids := d' # ds\<rparr>]\<rparr>)))"

subsection \<open>Reachable ledgers\<close>

text \<open>
  The ledgers a program gets from \<open>Blockchain()\<close> by calls of \<open>register_id\<close> and
  \<open>mine_pending_ids\<close>. A call that raises leaves the ledger as it was, and a call that
  never returns leaves no ledger to look at.
\<close>

inductive reachable :: "sha \<Rightarrow> blockchain \<Rightarrow> bool" for sha256 :: sha where
  new: "Blockchain_init sha256 now = Inr bc \<Longrightarrow> reachable sha256 bc"
| register: "reachable sha256 bc \<Longrightarrow> reachable sha256 (register_id bc digital_id)"
| mine: "reachable sha256 bc \<Longrightarrow> mine_pending_ids sha256 now difficulty bc = Some (Inr bc') \<Longrightarrow>
     reachable sha256 bc'"

section \<open>id_system.py\<close>

definition generate_pqc_id ::
  "'r provider \<Rightarrow> sha \<Rightarrow> 'r \<Rightarrow> 'r \<Rightarrow> string \<Rightarrow> pyval \<Rightarrow> exn + pyval \<times> string" where
  "generate_pqc_id P sha256 r1 r2 now user_info =
     (let (public_key, secret_key) = generate_keypair P r1 in
      case json_dumps user_info of
        Inl e \<Rightarrow> Inl e
      | Inr user_data_str \<Rightarrow>
          (let data_hash = sha256 (encode_utf8 user_data_str) in
           case sign P r2 secret_key data_hash of
             Inl e \<Rightarrow> Inl e
           | Inr signature \<Rightarrow>
               Inr (PDict
                     [(KStr ''id_type'', PStr ''E-GOV_PQC_ID''),
                      (KStr ''pqc_scheme'', PStr ''ML-DSA-44''),
                      (KStr ''user_data'', user_info),
                      (KStr ''public_key'', PStr (bytes_hex public_key)),
                      (KStr ''signature'', PStr (bytes_hex signature)),
                      (KStr ''timestamp'', PFloat now)],
                    bytes_hex secret_key)))"

text \<open>The body of the \<open>try\<close> block of \<open>verify_pqc_id\<close>.\<close>

definition try_verify :: "'r provider \<Rightarrow> sha \<Rightarrow> pyval \<Rightarrow> exn + bool" where
  "try_verify P sha256 digital_id =
     (case getitem digital_id ''public_key'' of Inl e \<Rightarrow> Inl e | Inr pkv \<Rightarrow>
     (case bytes_fromhex pkv of Inl e \<Rightarrow> Inl e | Inr public_key \<Rightarrow>
     (case getitem digital_id ''signature'' of Inl e \<Rightarrow> Inl e | Inr sv \<Rightarrow>
     (case bytes_fromhex sv of Inl e \<Rightarrow> Inl e | Inr signature \<Rightarrow>
     (case getitem digital_id ''user_data'' of Inl e \<Rightarrow> Inl e | Inr ud \<Rightarrow>
     (case json_dumps ud of Inl e \<Rightarrow> Inl e | Inr user_data_str \<Rightarrow>
        verify P public_key (sha256 (encode_utf8 user_data_str)) signature))))))"

text \<open>\<open>except Exception: return False\<close>.\<close>

definition verify_pqc_id :: "'r provider \<Rightarrow> sha \<Rightarrow> pyval \<Rightarrow> bool" where
  "verify_pqc_id P sha256 digital_id =
     (case try_verify P sha256 digital_id of Inl e \<Rightarrow> False | Inr ok \<Rightarrow> ok)"

section \<open>Stand-ins for the external libraries\<close>

text \<open>
  The theorems below hold for every digest function and every signature provider. To run
  the model on concrete inputs, a one-byte checksum stands in for SHA-256.
\<close>

definition toy_sha :: sha where
  "toy_sha bs = [char_of ((140 + sum_list (map of_char bs)) mod 256 :: int)]"

definition example_block :: block where
  "example_block =
     \<lparr>index = 1, timestamp = ''0.0'', digital_ids = [], previous_hash = ''0'',
      nonce = 0, hash = ''fe''\<rparr>"

text \<open>
  A signature scheme that stands in for ML-DSA: one key pair, and the signature of a
  message is the secret key followed by the message.
\<close>

definition toy_provider :: "unit provider" where
  "toy_provider =
     \<lparr>generate_keypair = (\<lambda>r. (''pk'', ''sk'')),
      sign = (\<lambda>r sk m. Inr (sk @ m)),
      verify = (\<lambda>pk m s. Inr (pk = ''pk'' \<and> s = ''sk'' @ m))\<rparr>"

definition example_user :: pyval where
  "example_user = PDict [(KStr ''id'', PStr ''Citizen-001''), (KStr ''purpose'', PStr ''Banking Access'')]"

definition example_id :: pyval where
  "example_id =
     PDict [(KStr ''id_type'', PStr ''E-GOV_PQC_ID''),
            (KStr ''pqc_scheme'', PStr ''ML-DSA-44''),
            (KStr ''user_data'', example_user),
            (KStr ''public_key'', PStr ''706b''),
            (KStr ''signature'', PStr ''736b2f''),
            (KStr ''timestamp'', PFloat ''1.25'')]"

definition example_genesis :: block where
  "example_genesis =
     \<lparr>index = 0, timestamp = ''0.0'', digital_ids = [PStr ''Genesis Block: System Initialized''],
      previous_hash = ''0'', nonce = 0, hash = ''8f''\<rparr>"

definition example_mined :: block where
  "example_mined =
     \<lparr>index = 1, timestamp = ''4.9'', digital_ids = [example_id],
      previous_hash = ''8f'', nonce = 2, hash = ''00''\<rparr>"

definition example_ledger :: blockchain where
  "example_ledger = \<lparr>chain = [example_genesis, example_mined], pending_ids = []\<rparr>"

section \<open>Serialising a block\<close>

lemma char_le_iff: "(c::char) \<le> d \<longleftrightarrow> (of_char c :: nat) \<le> of_char d"
  by (simp add: less_eq_char_def)
lemma char_less_iff: "(c::char) < d \<longleftrightarrow> (of_char c :: nat) < of_char d"
  by (simp add: less_char_def)

lemma block_keys_sorted:
  "sorted_items [(KStr ''index'', a), (KStr ''timestamp'', b), (KStr ''data'', c),
        (KStr ''previous_hash'', d), (KStr ''nonce'', e)]
   = Inr [(KStr ''data'', c), (KStr ''index'', a), (KStr ''nonce'', e),
        (KStr ''previous_hash'', d), (KStr ''timestamp'', b)]"
  by (simp add: sorted_items_def char_le_iff char_less_iff)

lemma block_string_eq:
  "block_string b =
     (case dumps_list (digital_ids b) of
        Inl e \<Rightarrow> Inl e
      | Inr ss \<Rightarrow>
     (case int_repr (index b) of
        Inl e \<Rightarrow> Inl e
      | Inr i \<Rightarrow>
     (case int_repr (nonce b) of
        Inl e \<Rightarrow> Inl e
      | Inr n \<Rightarrow>
          Inr (''{'' @ encode_basestring_ascii ''data'' @ '': ['' @ join '', '' ss @ ''], ''
           @ encode_basestring_ascii ''index'' @ '': '' @ i @ '', ''
           @ encode_basestring_ascii ''nonce'' @ '': '' @ n @ '', ''
           @ encode_basestring_ascii ''previous_hash'' @ '': ''
           @ encode_basestring_ascii (previous_hash b) @ '', ''
           @ encode_basestring_ascii ''timestamp'' @ '': '' @ timestamp b @ ''}''))))"
  by (simp add: block_string_def block_keys_sorted split: sum.splits)

section \<open>Mining\<close>

lemma mine_loop_frame:
  assumes run: "mine_loop sha256 p b = Some y"
  shows "snd y = b\<lparr>nonce := nonce (snd y), hash := hash (snd y)\<rparr>"
proof (rule mine_loop.raw_induct
    [where P = "\<lambda>s p b y. snd y = b\<lparr>nonce := nonce (snd y), hash := hash (snd y)\<rparr>", OF _ run])
  fix f s q c z
  assume IH: "\<And>s q c z. f s q c = Some z \<Longrightarrow> snd z = c\<lparr>nonce := nonce (snd z), hash := hash (snd z)\<rparr>"
    and body: "(if startswith (hash c) q then Some (None, c)
      else case calculate_hash s (c\<lparr>nonce := nonce c + 1\<rparr>) of
             Inl e \<Rightarrow> Some (Some e, c\<lparr>nonce := nonce c + 1\<rparr>)
           | Inr h \<Rightarrow> f s q (c\<lparr>nonce := nonce c + 1, hash := h\<rparr>)) = Some z"
  show "snd z = c\<lparr>nonce := nonce (snd z), hash := hash (snd z)\<rparr>"
  proof (cases "startswith (hash c) q")
    case True
    with body show ?thesis by auto
  next
    case False
    show ?thesis
    proof (cases "calculate_hash s (c\<lparr>nonce := nonce c + 1\<rparr>)")
      case (Inl e)
      with False body show ?thesis by auto
    next
      case (Inr h)
      with False body have "f s q (c\<lparr>nonce := nonce c + 1, hash := h\<rparr>) = Some z" by simp
      from IH[OF this] show ?thesis by (cases c, cases "snd z") auto
    qed
  qed
qed

lemma calculate_hash_ignores_hash:
  "calculate_hash s (c\<lparr>hash := h\<rparr>) = calculate_hash s c"
  by (simp add: calculate_hash_def block_string_def)

lemma mine_loop_post:
  assumes run: "mine_loop sha256 p b = Some y"
  shows "fst y = None \<longrightarrow> startswith (hash (snd y)) p \<and>
     ((startswith (hash b) p \<longrightarrow> calculate_hash sha256 b = Inr (hash b)) \<longrightarrow>
      calculate_hash sha256 (snd y) = Inr (hash (snd y)))"
proof (rule mine_loop.raw_induct
    [where P = "\<lambda>s p b y. fst y = None \<longrightarrow> startswith (hash (snd y)) p \<and>
     ((startswith (hash b) p \<longrightarrow> calculate_hash s b = Inr (hash b)) \<longrightarrow>
      calculate_hash s (snd y) = Inr (hash (snd y)))", OF _ run])
  fix f s q c z
  assume IH: "\<And>s q c z. f s q c = Some z \<Longrightarrow> fst z = None \<longrightarrow> startswith (hash (snd z)) q \<and>
     ((startswith (hash c) q \<longrightarrow> calculate_hash s c = Inr (hash c)) \<longrightarrow>
      calculate_hash s (snd z) = Inr (hash (snd z)))"
    and body: "(if startswith (hash c) q then Some (None, c)
      else case calculate_hash s (c\<lparr>nonce := nonce c + 1\<rparr>) of
             Inl e \<Rightarrow> Some (Some e, c\<lparr>nonce := nonce c + 1\<rparr>)
           | Inr h \<Rightarrow> f s q (c\<lparr>nonce := nonce c + 1, hash := h\<rparr>)) = Some z"
  show "fst z = None \<longrightarrow> startswith (hash (snd z)) q \<and>
     ((startswith (hash c) q \<longrightarrow> calculate_hash s c = Inr (hash c)) \<longrightarrow>
      calculate_hash s (snd z) = Inr (hash (snd z)))"
  proof (cases "startswith (hash c) q")
    case True
    with body show ?thesis by auto
  next
    case False
    show ?thesis
    proof (cases "calculate_hash s (c\<lparr>nonce := nonce c + 1\<rparr>)")
      case (Inl e)
      with False body show ?thesis by auto
    next
      case (Inr h)
      with False body have m: "f s q (c\<lparr>nonce := nonce c + 1, hash := h\<rparr>) = Some z" by simp
      have "calculate_hash s (c\<lparr>nonce := nonce c + 1, hash := h\<rparr>) = Inr h"
        using Inr by (simp add: calculate_hash_ignores_hash)
      with IH[OF m] show ?thesis by simp
    qed
  qed
qed

lemma Block_init_Inr:
  assumes "Block_init s now i ids prev = Inr nb"
  shows "index nb = i" "timestamp nb = now" "digital_ids nb = ids" "previous_hash nb = prev"
    "nonce nb = 0" "calculate_hash s nb = Inr (hash nb)"
  using assms
  by (auto simp: Block_init_def Let_def calculate_hash_def block_string_def split: sum.splits)

lemma example_block_hash: "calculate_hash toy_sha example_block = Inr ''fe''"
  by code_simp

lemma mine_loop_done:
  "startswith (hash b) p \<Longrightarrow> mine_loop s p b = Some (None, b)"
  by (subst mine_loop.simps) simp

lemma mine_loop_step:
  "\<not> startswith (hash b) p \<Longrightarrow> calculate_hash s (b\<lparr>nonce := nonce b + 1\<rparr>) = Inr h \<Longrightarrow>
     mine_loop s p b = mine_loop s p (b\<lparr>nonce := nonce b + 1, hash := h\<rparr>)"
  by (subst mine_loop.simps) simp

lemma example_block_mined:
  "mine_block toy_sha example_block 1 = Some (None, example_block\<lparr>nonce := 2, hash := ''00''\<rparr>)"
proof -
  let ?B1 = "example_block\<lparr>nonce := nonce example_block + 1, hash := ''ff''\<rparr>"
  let ?B2 = "?B1\<lparr>nonce := nonce ?B1 + 1, hash := ''00''\<rparr>"
  have "mine_loop toy_sha ''0'' example_block = mine_loop toy_sha ''0'' ?B1"
    by (rule mine_loop_step; code_simp)
  also have "\<dots> = mine_loop toy_sha ''0'' ?B2"
    by (rule mine_loop_step; code_simp)
  also have "\<dots> = Some (None, ?B2)"
    by (rule mine_loop_done; code_simp)
  finally show ?thesis
    by (simp add: mine_block_def example_block_def)
qed


lemma example_block_init: "Block_init toy_sha ''0.0'' 1 [] ''0'' = Inr example_block"
  by code_simp

lemma stale_block_mined:
  "mine_block toy_sha (example_block\<lparr>hash := ''zz''\<rparr>) 1 =
     Some (None, example_block\<lparr>nonce := 2, hash := ''00''\<rparr>)"
proof -
  let ?B0 = "example_block\<lparr>hash := ''zz''\<rparr>"
  let ?B1 = "?B0\<lparr>nonce := nonce ?B0 + 1, hash := ''ff''\<rparr>"
  let ?B2 = "?B1\<lparr>nonce := nonce ?B1 + 1, hash := ''00''\<rparr>"
  have "mine_loop toy_sha ''0'' ?B0 = mine_loop toy_sha ''0'' ?B1"
    by (rule mine_loop_step; code_simp)
  also have "\<dots> = mine_loop toy_sha ''0'' ?B2"
    by (rule mine_loop_step; code_simp)
  also have "\<dots> = Some (None, ?B2)"
    by (rule mine_loop_done; code_simp)
  finally show ?thesis
    by (simp add: mine_block_def example_block_def)
qed

text \<open>
  C9. Mining changes only the nonce and the hash of the block: whatever way the call ends
  (normally, or with an exception out of the hash computation), the index, the timestamp,
  the records and the previous hash of the block are the ones it had before the call.
\<close>

theorem mine_block_frame:
  "mine_block sha256 b difficulty = Some (r, b') \<Longrightarrow>
     index b' = index b \<and> timestamp b' = timestamp b \<and> digital_ids b' = digital_ids b \<and>
     previous_hash b' = previous_hash b"
proof -
  assume "mine_block sha256 b difficulty = Some (r, b')"
  then have "b' = b\<lparr>nonce := nonce b', hash := hash b'\<rparr>"
    using mine_loop_frame [of sha256 _ b "(r, b')"] by (simp add: mine_block_def)
  then show ?thesis
    by (cases b, cases b') simp
qed

theorem mine_block_frame_witness:
  "mine_block toy_sha example_block 1 = Some (None, example_block\<lparr>nonce := 2, hash := ''00''\<rparr>) \<and>
   index (example_block\<lparr>nonce := 2, hash := ''00''\<rparr>) = index example_block \<and>
   timestamp (example_block\<lparr>nonce := 2, hash := ''00''\<rparr>) = timestamp example_block \<and>
   digital_ids (example_block\<lparr>nonce := 2, hash := ''00''\<rparr>) = digital_ids example_block \<and>
   previous_hash (example_block\<lparr>nonce := 2, hash := ''00''\<rparr>) = previous_hash example_block \<and>
   nonce (example_block\<lparr>nonce := 2, hash := ''00''\<rparr>) \<noteq> nonce example_block"
  using mine_block_frame [OF example_block_mined] example_block_mined
  by (simp add: example_block_def)


text \<open>
  C4, amended. For every block and every integer difficulty, when \<open>mine_block\<close> returns,
  the stored hash of the block starts with \<open>difficulty\<close> zeros; and it is the recomputed
  hash of the block's fields on return, unless the hash stored on entry already started
  with the zeros without being the recomputed hash (then the loop body never runs and
  the stale hash stays). A block that \<open>Block.__init__\<close> returns carries its recomputed
  hash, so mining a freshly constructed block always ends with the recomputed hash.
\<close>

theorem mine_block_post:
  "(mine_block sha256 b difficulty = Some (None, b') \<longrightarrow>
      startswith (hash b') (replicate (nat difficulty) CHR ''0'') \<and>
      ((startswith (hash b) (replicate (nat difficulty) CHR ''0'') \<longrightarrow>
          calculate_hash sha256 b = Inr (hash b)) \<longrightarrow>
       calculate_hash sha256 b' = Inr (hash b'))) \<and>
   (Block_init sha256 now i ids prev = Inr nb \<longrightarrow> calculate_hash sha256 nb = Inr (hash nb)) \<and>
   (Block_init sha256 now i ids prev = Inr nb \<and> mine_block sha256 nb difficulty = Some (None, b') \<longrightarrow>
      startswith (hash b') (replicate (nat difficulty) CHR ''0'') \<and>
      calculate_hash sha256 b' = Inr (hash b'))"
proof (intro conjI impI)
  assume run: "mine_block sha256 b difficulty = Some (None, b')"
  then have loop: "mine_loop sha256 (replicate (nat difficulty) CHR ''0'') b = Some (None, b')"
    by (simp add: mine_block_def)
  show "startswith (hash b') (replicate (nat difficulty) CHR ''0'')"
    using mine_loop_post [OF loop] by simp
  assume "startswith (hash b) (replicate (nat difficulty) CHR ''0'') \<longrightarrow>
      calculate_hash sha256 b = Inr (hash b)"
  then show "calculate_hash sha256 b' = Inr (hash b')"
    using mine_loop_post [OF loop] by simp
next
  assume "Block_init sha256 now i ids prev = Inr nb"
  then show "calculate_hash sha256 nb = Inr (hash nb)"
    by (rule Block_init_Inr(6))
next
  assume both: "Block_init sha256 now i ids prev = Inr nb \<and>
      mine_block sha256 nb difficulty = Some (None, b')"
  then have loop: "mine_loop sha256 (replicate (nat difficulty) CHR ''0'') nb = Some (None, b')"
    by (simp add: mine_block_def)
  have fresh: "calculate_hash sha256 nb = Inr (hash nb)"
    using both by (auto dest: Block_init_Inr(6))
  show "startswith (hash b') (replicate (nat difficulty) CHR ''0'')"
    using mine_loop_post [OF loop] by simp
  show "calculate_hash sha256 b' = Inr (hash b')"
    using mine_loop_post [OF loop] fresh by simp
qed

theorem mine_block_post_witness:
  "mine_block toy_sha (example_block\<lparr>hash := ''zz''\<rparr>) 1 =
     Some (None, example_block\<lparr>nonce := 2, hash := ''00''\<rparr>) \<and>
   \<not> startswith (hash (example_block\<lparr>hash := ''zz''\<rparr>)) ''0'' \<and>
   calculate_hash toy_sha (example_block\<lparr>hash := ''zz''\<rparr>) \<noteq> Inr ''zz'' \<and>
   Block_init toy_sha ''0.0'' 1 [] ''0'' = Inr example_block \<and>
   calculate_hash toy_sha example_block = Inr (hash example_block) \<and>
   mine_block toy_sha example_block 1 = Some (None, example_block\<lparr>nonce := 2, hash := ''00''\<rparr>) \<and>
   startswith (hash (example_block\<lparr>nonce := 2, hash := ''00''\<rparr>)) ''0'' \<and>
   calculate_hash toy_sha (example_block\<lparr>nonce := 2, hash := ''00''\<rparr>) =
     Inr (hash (example_block\<lparr>nonce := 2, hash := ''00''\<rparr>))"
proof -
  have stale: "\<not> startswith (hash (example_block\<lparr>hash := ''zz''\<rparr>)) ''0''"
    by (simp add: startswith_def)
  have differs: "calculate_hash toy_sha (example_block\<lparr>hash := ''zz''\<rparr>) \<noteq> Inr ''zz''"
    using example_block_hash by (simp add: calculate_hash_ignores_hash)
  have post: "startswith (hash (example_block\<lparr>nonce := 2, hash := ''00''\<rparr>)) ''0'' \<and>
      calculate_hash toy_sha (example_block\<lparr>nonce := 2, hash := ''00''\<rparr>) =
        Inr (hash (example_block\<lparr>nonce := 2, hash := ''00''\<rparr>))"
    using mine_block_post [of toy_sha "example_block\<lparr>hash := ''zz''\<rparr>" 1
        "example_block\<lparr>nonce := 2, hash := ''00''\<rparr>" "''0.0''" 1 "[]" "''0''" example_block]
      stale_block_mined stale
    by simp
  have fresh: "calculate_hash toy_sha example_block = Inr (hash example_block)"
    using mine_block_post [of toy_sha "example_block\<lparr>hash := ''zz''\<rparr>" 1
        "example_block\<lparr>nonce := 2, hash := ''00''\<rparr>" "''0.0''" 1 "[]" "''0''" example_block]
      example_block_init
    by simp
  show ?thesis
    using stale_block_mined stale differs example_block_init fresh example_block_mined post
    by simp
qed


text \<open>
  C4 as stated fails for a block whose stored hash is stale: the loop tests the stored
  hash first, so a stored hash that already starts with the zeros is returned as it is,
  whatever the fields hash to. Two blocks that differ in the stored hash only cannot both
  carry their recomputed hash, and both are returned unchanged at difficulty 1. This holds
  for every digest function.
\<close>

theorem mine_block_stale_hash_counterexample:
  "\<forall>sha256. \<not> (\<forall>b difficulty b'. mine_block sha256 b difficulty = Some (None, b') \<longrightarrow>
      startswith (hash b') (replicate (nat difficulty) CHR ''0'') \<and>
      calculate_hash sha256 b' = Inr (hash b'))"
proof (intro allI notI)
  fix sha256 :: sha
  assume claim: "\<forall>b difficulty b'. mine_block sha256 b difficulty = Some (None, b') \<longrightarrow>
      startswith (hash b') (replicate (nat difficulty) CHR ''0'') \<and>
      calculate_hash sha256 b' = Inr (hash b')"
  have run: "mine_block sha256 (example_block\<lparr>hash := h\<rparr>) 1 = Some (None, example_block\<lparr>hash := h\<rparr>)"
    if "startswith h ''0''" for h
    unfolding mine_block_def using that by (subst mine_loop.simps) simp
  have "calculate_hash sha256 (example_block\<lparr>hash := ''0''\<rparr>) = Inr ''0''"
    using claim run [of "''0''"] by (fastforce simp: startswith_def)
  moreover have "calculate_hash sha256 (example_block\<lparr>hash := ''00''\<rparr>) = Inr ''00''"
    using claim run [of "''00''"] by (fastforce simp: startswith_def)
  ultimately show False
    by (simp add: calculate_hash_ignores_hash)
qed

section \<open>Validation\<close>

lemma check_from_valid_iff:
  "check_from s c i = Inr (m, True) \<longleftrightarrow>
     m = [] \<and> (\<forall>j. i \<le> j \<and> j < length c \<longrightarrow>
        calculate_hash s (c ! j) = Inr (hash (c ! j)) \<and> previous_hash (c ! j) = hash (c ! (j - 1)))"
proof (induction s c i rule: check_from.induct)
  case (1 s c i)
  let ?P = "\<lambda>j. calculate_hash s (c ! j) = Inr (hash (c ! j)) \<and> previous_hash (c ! j) = hash (c ! (j - 1))"
  show ?case
  proof (cases "i < length c")
    case False
    then show ?thesis by (subst check_from.simps) auto
  next
    case True
    have split: "(\<forall>j. i \<le> j \<and> j < length c \<longrightarrow> ?P j) \<longleftrightarrow>
        ?P i \<and> (\<forall>j. i + 1 \<le> j \<and> j < length c \<longrightarrow> ?P j)"
      using True by (metis Suc_eq_plus1 Suc_leI le_neq_implies_less order_refl Suc_leD)
    show ?thesis
    proof (cases "calculate_hash s (c ! i)")
      case (Inl e)
      then show ?thesis
        using True by (subst check_from.simps) (auto simp: split)
    next
      case (Inr h)
      show ?thesis
      proof (cases "hash (c ! i) = h \<and> previous_hash (c ! i) = hash (c ! (i - 1))")
        case False
        then show ?thesis
          using True Inr by (subst check_from.simps) (auto simp: split)
      next
        case ok: True
        then have eq: "check_from s c i = check_from s c (i + 1)"
          using True Inr by (subst check_from.simps) simp
        have ih: "check_from s c (i + 1) = Inr (m, True) \<longleftrightarrow>
            m = [] \<and> (\<forall>j. i + 1 \<le> j \<and> j < length c \<longrightarrow> ?P j)"
          using "1.IH" [OF True Inr] ok by simp
        have "?P i"
          using ok Inr by simp
        then have rest: "(\<forall>j. i \<le> j \<and> j < length c \<longrightarrow> ?P j) \<longleftrightarrow>
            (\<forall>j. i + 1 \<le> j \<and> j < length c \<longrightarrow> ?P j)"
          using split by blast
        show ?thesis
          by (simp only: eq ih rest)
      qed
    qed
  qed
qed


section \<open>Reachable ledgers are valid\<close>

lemma mine_pending_ids_Inr:
  assumes run: "mine_pending_ids s now d bc = Some (Inr bc')" and pend: "pending_ids bc \<noteq> []"
  obtains nb mined where "chain bc \<noteq> []"
    and "Block_init s now (index (last (chain bc)) + 1) (pending_ids bc) (hash (last (chain bc))) = Inr nb"
    and "mine_block s nb d = Some (None, mined)"
    and "bc' = bc\<lparr>chain := chain bc @ [mined], pending_ids := []\<rparr>"
  using run pend
  by (auto simp: mine_pending_ids_def last_block_def
      split: if_splits sum.splits option.splits prod.splits)

lemma mined_block_facts:
  assumes init: "Block_init s now i ids prev = Inr nb"
    and run: "mine_block s nb d = Some (None, mined)"
  shows "index mined = i" "timestamp mined = now" "digital_ids mined = ids"
    "previous_hash mined = prev" "startswith (hash mined) (replicate (nat d) CHR ''0'')"
    "calculate_hash s mined = Inr (hash mined)"
proof -
  have loop: "mine_loop s (replicate (nat d) CHR ''0'') nb = Some (None, mined)"
    using run by (simp add: mine_block_def)
  have same: "mined = nb\<lparr>nonce := nonce mined, hash := hash mined\<rparr>"
    using mine_loop_frame [OF loop] by simp
  show "index mined = i" "timestamp mined = now" "digital_ids mined = ids"
    "previous_hash mined = prev"
    using Block_init_Inr(1-4) [OF init] by (subst same, simp)+
  show "startswith (hash mined) (replicate (nat d) CHR ''0'')"
    "calculate_hash s mined = Inr (hash mined)"
    using mine_loop_post [OF loop] Block_init_Inr(6) [OF init] by simp_all
qed

lemma links_append:
  assumes old: "\<forall>j. 1 \<le> j \<and> j < length c \<longrightarrow>
      calculate_hash s (c ! j) = Inr (hash (c ! j)) \<and> previous_hash (c ! j) = hash (c ! (j - 1))"
    and ne: "c \<noteq> []"
    and new: "calculate_hash s b = Inr (hash b)" "previous_hash b = hash (last c)"
  shows "\<forall>j. 1 \<le> j \<and> j < length (c @ [b]) \<longrightarrow>
      calculate_hash s ((c @ [b]) ! j) = Inr (hash ((c @ [b]) ! j)) \<and>
      previous_hash ((c @ [b]) ! j) = hash ((c @ [b]) ! (j - 1))"
proof (intro allI impI)
  fix j
  assume j: "1 \<le> j \<and> j < length (c @ [b])"
  show "calculate_hash s ((c @ [b]) ! j) = Inr (hash ((c @ [b]) ! j)) \<and>
      previous_hash ((c @ [b]) ! j) = hash ((c @ [b]) ! (j - 1))"
  proof (cases "j < length c")
    case True
    then have "j - 1 < length c" by simp
    with True show ?thesis
      using old j by (simp add: nth_append)
  next
    case False
    then have "j = length c" using j by simp
    then show ?thesis
      using new ne by (simp add: nth_append last_conv_nth)
  qed
qed

lemma reachable_links:
  "reachable s bc \<Longrightarrow> chain bc \<noteq> [] \<and> (\<forall>j. 1 \<le> j \<and> j < length (chain bc) \<longrightarrow>
     calculate_hash s (chain bc ! j) = Inr (hash (chain bc ! j)) \<and>
     previous_hash (chain bc ! j) = hash (chain bc ! (j - 1)))"
proof (induction rule: reachable.induct)
  case (new now bc)
  then show ?case
    by (auto simp: Blockchain_init_def create_genesis_block_def split: sum.splits)
next
  case (register bc digital_id)
  then show ?case by (simp add: register_id_def)
next
  case (mine bc now difficulty bc')
  show ?case
  proof (cases "pending_ids bc = []")
    case True
    then show ?thesis using mine by (simp add: mine_pending_ids_def)
  next
    case False
    from mine_pending_ids_Inr [OF mine.hyps(2) False] obtain nb mined where
      init: "Block_init s now (index (last (chain bc)) + 1) (pending_ids bc) (hash (last (chain bc))) = Inr nb"
      and run: "mine_block s nb difficulty = Some (None, mined)"
      and bc': "bc' = bc\<lparr>chain := chain bc @ [mined], pending_ids := []\<rparr>"
      by blast
    have ne: "chain bc \<noteq> []" and old: "\<forall>j. 1 \<le> j \<and> j < length (chain bc) \<longrightarrow>
        calculate_hash s (chain bc ! j) = Inr (hash (chain bc ! j)) \<and>
        previous_hash (chain bc ! j) = hash (chain bc ! (j - 1))"
      using mine.IH by simp_all
    show ?thesis
      using links_append [OF old ne mined_block_facts(6) [OF init run] mined_block_facts(4) [OF init run]]
      by (simp add: bc')
  qed
qed

lemma example_init:
  "Blockchain_init toy_sha ''0.0'' = Inr \<lparr>chain = [example_genesis], pending_ids = []\<rparr>"
  by code_simp

lemma example_mining:
  "mine_pending_ids toy_sha ''4.9'' 1
     (register_id \<lparr>chain = [example_genesis], pending_ids = []\<rparr> example_id) = Some (Inr example_ledger)"
proof -
  let ?B0 = "example_mined\<lparr>nonce := 0, hash := ''fe''\<rparr>"
  let ?B1 = "?B0\<lparr>nonce := nonce ?B0 + 1, hash := ''ff''\<rparr>"
  let ?B2 = "?B1\<lparr>nonce := nonce ?B1 + 1, hash := ''00''\<rparr>"
  have init: "Block_init toy_sha ''4.9'' (index example_genesis + 1) [example_id] (hash example_genesis) = Inr ?B0"
    by code_simp
  have "mine_loop toy_sha ''0'' ?B0 = mine_loop toy_sha ''0'' ?B1"
    by (rule mine_loop_step; code_simp)
  also have "\<dots> = mine_loop toy_sha ''0'' ?B2"
    by (rule mine_loop_step; code_simp)
  also have "\<dots> = Some (None, ?B2)"
    by (rule mine_loop_done; code_simp)
  finally have "mine_block toy_sha ?B0 1 = Some (None, example_mined)"
    by (simp add: mine_block_def example_mined_def)
  then show ?thesis
    using init
    by (simp add: mine_pending_ids_def register_id_def last_block_def example_ledger_def)
qed

lemma example_ledger_reachable: "reachable toy_sha example_ledger"
proof -
  have "reachable toy_sha \<lparr>chain = [example_genesis], pending_ids = []\<rparr>"
    using example_init by (rule reachable.new)
  then have "reachable toy_sha (register_id \<lparr>chain = [example_genesis], pending_ids = []\<rparr> example_id)"
    by (rule reachable.register)
  then show ?thesis
    using example_mining by (rule reachable.mine)
qed

text \<open>
  C5. Every ledger reachable from \<open>Blockchain()\<close> by calls of \<open>register_id\<close> and
  \<open>mine_pending_ids\<close> passes \<open>is_chain_valid\<close>: the call returns \<open>True\<close> and prints
  nothing. The fresh ledger is the first of the reachable ones.
\<close>

theorem reachable_is_chain_valid:
  "reachable sha256 bc \<Longrightarrow> is_chain_valid sha256 bc = Inr ([], True)"
  using reachable_links [of sha256 bc]
  by (simp add: is_chain_valid_def check_from_valid_iff)

theorem reachable_is_chain_valid_witness:
  "reachable toy_sha example_ledger \<and> length (chain example_ledger) = 2 \<and>
   is_chain_valid toy_sha example_ledger = Inr ([], True)"
  using reachable_is_chain_valid [OF example_ledger_reachable] example_ledger_reachable
  by (simp add: example_ledger_def)

end
